theory Spec2Isabelle
  imports Complex_Main
begin

section \<open>Text primitives\<close>

text \<open>
  Python text is modelled as \<open>string\<close>. The model is that of ASCII text; a character
  outside ASCII is carried along as its bytes, which are no digits and no white space and
  which the case mappings leave alone (the star of the rating texts is such a character).
  Python's \<open>float\<close> values are modelled as exact rationals. An exception is a value
  of a sum type: \<open>Inl\<close> is the exception raised, \<open>Inr\<close> the value returned.
\<close>

datatype exn = ValueError

definition is_digit :: "char \<Rightarrow> bool" where
  \<comment> \<open>\<open>\d\<close>\<close>
  "is_digit c = (c \<in> set ''0123456789'')"

definition is_space :: "char \<Rightarrow> bool" where
  \<comment> \<open>\<open>\s\<close> and the characters \<open>str.strip()\<close> removes: tab, LF, VT, FF, CR, FS, GS, RS, US, space\<close>
  "is_space c = (c \<in> set [CHR 0x09, CHR 0x0A, CHR 0x0B, CHR 0x0C, CHR 0x0D,
                          CHR 0x1C, CHR 0x1D, CHR 0x1E, CHR 0x1F, CHR 0x20])"

definition strip :: "string \<Rightarrow> string" where
  \<comment> \<open>\<open>s.strip()\<close>\<close>
  "strip s = rev (dropWhile is_space (rev (dropWhile is_space s)))"

definition starts_with :: "string \<Rightarrow> string \<Rightarrow> bool" where
  \<comment> \<open>\<open>s.startswith(p)\<close>\<close>
  "starts_with p s = (take (length p) s = p)"

fun contains :: "string \<Rightarrow> string \<Rightarrow> bool" where
  \<comment> \<open>\<open>sub in s\<close>\<close>
  "contains sub [] = (sub = [])"
| "contains sub (c # cs) = (starts_with sub (c # cs) \<or> contains sub cs)"

definition digit_val :: "char \<Rightarrow> nat" where
  "digit_val c = of_char c - 48"

definition nat_of_digits :: "string \<Rightarrow> nat" where
  "nat_of_digits ds = foldl (\<lambda>n c. 10 * n + digit_val c) 0 ds"

definition decimal_value :: "string \<Rightarrow> string \<Rightarrow> rat" where
  \<comment> \<open>the number written \<open>ip.fp\<close>\<close>
  "decimal_value ip fp = of_nat (nat_of_digits ip) + of_nat (nat_of_digits fp) / 10 ^ length fp"

definition float_of_token :: "string \<Rightarrow> exn + rat" where
  \<comment> \<open>\<open>float(t)\<close> on the texts the patterns below can match: digits, commas, one point.
      Of those, the ones with digits before an optional point and digits only after it
      convert; a comma raises ValueError.\<close>
  "float_of_token t =
     (let ip = takeWhile is_digit t; r = dropWhile is_digit t in
      if ip = [] then Inl ValueError
      else (case r of
              [] \<Rightarrow> Inr (decimal_value ip [])
            | c # fp \<Rightarrow> if c = CHR ''.'' \<and> list_all is_digit fp
                       then Inr (decimal_value ip fp) else Inl ValueError))"

section \<open>Field normalizers (utils/transform.py)\<close>

definition USD_TO_IDR_RATE :: rat where
  "USD_TO_IDR_RATE = 16000"

definition digit_or_comma :: "char \<Rightarrow> bool" where
  \<comment> \<open>the class \<open>[\d,]\<close>\<close>
  "digit_or_comma c = (is_digit c \<or> c = CHR '','')"

fun re_search :: "(string \<Rightarrow> string option) \<Rightarrow> string \<Rightarrow> string option" where
  \<comment> \<open>\<open>re.search\<close>: the match at the leftmost position of the text where the pattern
      matches; \<open>match_at\<close> tries the pattern at the head of a text\<close>
  "re_search match_at [] = match_at []"
| "re_search match_at (c # cs) =
     (case match_at (c # cs) of Some g \<Rightarrow> Some g | None \<Rightarrow> re_search match_at cs)"

definition price_match_at :: "string \<Rightarrow> string option" where
  \<comment> \<open>the pattern \<open>[\d,]+\.?\d*\<close> tried at the head of the text: each part takes as much
      as it can, and nothing follows that could make it give anything back\<close>
  "price_match_at s =
     (let a = takeWhile digit_or_comma s; r = dropWhile digit_or_comma s in
      if a = [] then None
      else Some (a @ (case r of [] \<Rightarrow> []
                      | d # r' \<Rightarrow> if d = CHR ''.'' then d # takeWhile is_digit r' else [])))"

definition remove_commas :: "string \<Rightarrow> string" where
  \<comment> \<open>\<open>s.replace(',', '')\<close>\<close>
  "remove_commas s = filter (\<lambda>c. c \<noteq> CHR '','') s"

definition clean_price :: "string option \<Rightarrow> exn + rat" where
  "clean_price price_str =
     (case price_str of
        None \<Rightarrow> Inr 0
      | Some s \<Rightarrow>
          if s = [] \<or> s = ''Price Unavailable'' then Inr 0
          else (case re_search price_match_at (remove_commas s) of
                  Some tok \<Rightarrow>
                    (case float_of_token tok of
                       Inl e \<Rightarrow> Inl e
                     | Inr usd_price \<Rightarrow> Inr (usd_price * USD_TO_IDR_RATE))
                | None \<Rightarrow> Inr 0))"

definition rating_match_at :: "string \<Rightarrow> string option" where
  \<comment> \<open>the pattern \<open>(\d+\.?\d*)\s*/\s*(\d+)\<close> tried at the head of the text; the result is
      group 1. Every part takes as much as it can, and taking less never helps: the
      character after a shortened part is one that the next part cannot start with.\<close>
  "rating_match_at s =
     (let d1 = takeWhile is_digit s; r1 = dropWhile is_digit s;
          dot = (case r1 of [] \<Rightarrow> False | c # _ \<Rightarrow> c = CHR ''.'');
          r2 = (if dot then tl r1 else r1);
          d2 = takeWhile is_digit r2; r3 = dropWhile is_digit r2;
          r4 = dropWhile is_space r3
      in if d1 = [] then None
         else (case r4 of
                 [] \<Rightarrow> None
               | c # r5 \<Rightarrow>
                   if c = CHR ''/'' \<and> (case dropWhile is_space r5 of [] \<Rightarrow> False | e # _ \<Rightarrow> is_digit e)
                   then Some (d1 @ (if dot then CHR ''.'' # d2 else []))
                   else None))"

definition clean_rating :: "string option \<Rightarrow> exn + rat option" where
  "clean_rating rating_str =
     (case rating_str of
        None \<Rightarrow> Inr None
      | Some s \<Rightarrow>
          if s = [] \<or> s = ''Not Rated'' then Inr None
          else if contains ''Invalid Rating'' s then Inr None
          else (case re_search rating_match_at s of
                  Some g \<Rightarrow> (case float_of_token g of Inl e \<Rightarrow> Inl e | Inr v \<Rightarrow> Inr (Some v))
                | None \<Rightarrow> Inr None))"

fun int_body :: "string \<Rightarrow> bool" where
  \<comment> \<open>the digits of an integer literal: single underscores may separate digits\<close>
  "int_body [] = False"
| "int_body [c] = is_digit c"
| "int_body (c # d # r) = (is_digit c \<and> (if d = CHR ''_'' then int_body r else int_body (d # r)))"

definition py_int :: "string \<Rightarrow> exn + int" where
  \<comment> \<open>\<open>int(s)\<close>: white space around, an optional sign, decimal digits\<close>
  "py_int s =
     (let t = strip s;
          neg = (case t of [] \<Rightarrow> False | c # _ \<Rightarrow> c = CHR ''-'');
          body = (case t of [] \<Rightarrow> [] | c # r \<Rightarrow> if c = CHR ''-'' \<or> c = CHR ''+'' then r else t)
      in if int_body body
         then Inr ((if neg then - 1 else 1) * int (nat_of_digits (filter (\<lambda>c. c \<noteq> CHR ''_'') body)))
         else Inl ValueError)"

definition clean_colors :: "string option \<Rightarrow> int option" where
  "clean_colors colors_str =
     (case colors_str of
        None \<Rightarrow> None
      | Some s \<Rightarrow> if s = [] then None
                  else (case py_int s of Inr n \<Rightarrow> Some n | Inl ValueError \<Rightarrow> None))"

definition upper_char :: "char \<Rightarrow> char" where
  "upper_char c =
     (case map_of (zip ''abcdefghijklmnopqrstuvwxyz'' ''ABCDEFGHIJKLMNOPQRSTUVWXYZ'') c of
        Some u \<Rightarrow> u | None \<Rightarrow> c)"

definition lower_char :: "char \<Rightarrow> char" where
  "lower_char c =
     (case map_of (zip ''ABCDEFGHIJKLMNOPQRSTUVWXYZ'' ''abcdefghijklmnopqrstuvwxyz'') c of
        Some l \<Rightarrow> l | None \<Rightarrow> c)"

definition upper :: "string \<Rightarrow> string" where
  "upper s = map upper_char s"

definition lower :: "string \<Rightarrow> string" where
  "lower s = map lower_char s"

definition size_mapping :: "(string \<times> string) list" where
  "size_mapping = [(''XS'', ''XS''), (''S'', ''S''), (''M'', ''M''), (''L'', ''L''),
                   (''XL'', ''XL''), (''XXL'', ''XXL'')]"

definition standardize_size :: "string option \<Rightarrow> string option" where
  "standardize_size size_str =
     (case size_str of
        None \<Rightarrow> None
      | Some s \<Rightarrow> if s = [] \<or> s = ''Unknown'' then None
                  else map_of size_mapping (strip (upper s)))"

definition gender_mapping :: "(string \<times> string) list" where
  "gender_mapping = [(''MEN'', ''Men''), (''WOMEN'', ''Women''), (''UNISEX'', ''Unisex'')]"

definition standardize_gender :: "string option \<Rightarrow> string option" where
  "standardize_gender gender_str =
     (case gender_str of
        None \<Rightarrow> None
      | Some s \<Rightarrow> if s = [] \<or> s = ''Unknown'' then None
                  else map_of gender_mapping (strip (upper s)))"

definition invalid_titles :: "string list" where
  "invalid_titles = [''unknown product'', ''unknown'', []]"

definition is_valid_title :: "string option \<Rightarrow> bool" where
  "is_valid_title title =
     (case title of
        None \<Rightarrow> False
      | Some t \<Rightarrow> if t = [] then False else strip (lower t) \<notin> set invalid_titles)"

section \<open>The validator (utils/transform.py, transform\_fashion\_data)\<close>

text \<open>
  A raw record is a dictionary with the seven keys of the schema, all text. A row of the
  data frame holds one cell per column; an absent cell (None or NaN) is \<open>None\<close>. A data
  frame is the list of its rows in order, each with its index label.
\<close>

record raw_record =
  raw_title :: string
  raw_price :: string
  raw_rating :: string
  raw_colors :: string
  raw_size :: string
  raw_gender :: string
  raw_timestamp :: string

record row =
  title :: "string option"
  price :: "rat option"
  rating :: "rat option"
  colors :: "int option"
  size_col :: "string option"
  gender :: "string option"
  timestamp :: string

type_synonym data_frame = "(nat \<times> row) list"

fun apply_series :: "('a \<Rightarrow> exn + 'b) \<Rightarrow> 'a list \<Rightarrow> exn + 'b list" where
  \<comment> \<open>\<open>Series.apply(f)\<close>: the first exception that \<open>f\<close> raises ends the call\<close>
  "apply_series f [] = Inr []"
| "apply_series f (x # xs) =
     (case f x of
        Inl e \<Rightarrow> Inl e
      | Inr y \<Rightarrow> (case apply_series f xs of Inl e \<Rightarrow> Inl e | Inr ys \<Rightarrow> Inr (y # ys)))"

definition dedup_key :: "row \<Rightarrow> string option \<times> rat option \<times> string option \<times> string option" where
  \<comment> \<open>\<open>subset=['title', 'price', 'size', 'gender']\<close>\<close>
  "dedup_key r = (title r, price r, size_col r, gender r)"

fun drop_duplicates_first :: "('a \<Rightarrow> 'k) \<Rightarrow> 'k list \<Rightarrow> 'a list \<Rightarrow> 'a list" where
  \<comment> \<open>\<open>drop_duplicates(keep='first')\<close>, scanning with the keys seen so far\<close>
  "drop_duplicates_first key seen [] = []"
| "drop_duplicates_first key seen (x # xs) =
     (if key x \<in> set seen then drop_duplicates_first key seen xs
      else x # drop_duplicates_first key (key x # seen) xs)"


definition dropna :: "data_frame \<Rightarrow> data_frame" where
  \<comment> \<open>\<open>dropna(subset=['title', 'price', 'rating', 'colors', 'size', 'gender'])\<close>\<close>
  "dropna df = filter (\<lambda>(i, r). title r \<noteq> None \<and> price r \<noteq> None \<and> rating r \<noteq> None \<and>
                                  colors r \<noteq> None \<and> size_col r \<noteq> None \<and> gender r \<noteq> None) df"

definition price_positive :: "row \<Rightarrow> bool" where
  \<comment> \<open>\<open>df['price'] > 0\<close>; the comparison is false on an absent cell\<close>
  "price_positive r = (case price r of None \<Rightarrow> False | Some p \<Rightarrow> p > 0)"

definition reset_index :: "data_frame \<Rightarrow> data_frame" where
  \<comment> \<open>\<open>reset_index(drop=True)\<close>\<close>
  "reset_index df = zip [0..<length df] (map snd df)"

definition make_frame :: "raw_record list \<Rightarrow> rat list \<Rightarrow> rat option list \<Rightarrow> int option list \<Rightarrow>
    string option list \<Rightarrow> string option list \<Rightarrow> data_frame" where
  \<comment> \<open>\<open>pd.DataFrame(raw_data)\<close> with the five cleaned columns put in place\<close>
  "make_frame raw_data prices ratings colorss sizes genders =
     map (\<lambda>i. (i, \<lparr>title = Some (raw_title (raw_data ! i)), price = Some (prices ! i),
                   rating = ratings ! i, colors = colorss ! i, size_col = sizes ! i,
                   gender = genders ! i, timestamp = raw_timestamp (raw_data ! i)\<rparr>))
       [0..<length raw_data]"

definition transform_fashion_data :: "raw_record list \<Rightarrow> exn + data_frame" where
  "transform_fashion_data raw_data =
     (if raw_data = [] then Inr []
      else
        (case apply_series clean_price (map (\<lambda>r. Some (raw_price r)) raw_data) of
           Inl e \<Rightarrow> Inl e
         | Inr prices \<Rightarrow>
        (case apply_series clean_rating (map (\<lambda>r. Some (raw_rating r)) raw_data) of
           Inl e \<Rightarrow> Inl e
         | Inr ratings \<Rightarrow>
             (let colorss = map (\<lambda>r. clean_colors (Some (raw_colors r))) raw_data;
                  sizes = map (\<lambda>r. standardize_size (Some (raw_size r))) raw_data;
                  genders = map (\<lambda>r. standardize_gender (Some (raw_gender r))) raw_data;
                  df = make_frame raw_data prices ratings colorss sizes genders;
                  df = filter (\<lambda>(i, r). is_valid_title (title r)) df;
                  df = dropna df;
                  df = filter (\<lambda>(i, r). price_positive r) df;
                  df = drop_duplicates_first (\<lambda>(i, r). dedup_key r) [] df;
                  df = reset_index df
              in Inr df))))"

section \<open>The card parser (utils/extract.py, parse\_product\_data)\<close>

text \<open>
  The HTML library is outside the model. What it hands to the parser is a card: the text
  of the title element and of the price element when the card has one, and the texts of
  the detail paragraphs in document order. A product is the dictionary the parser fills.
\<close>

record card =
  title_element :: "string option"
  price_element :: "string option"
  detail_paragraphs :: "string list"

type_synonym product = "string \<rightharpoonup> string"

function replace :: "string \<Rightarrow> string \<Rightarrow> string \<Rightarrow> string" where
  \<comment> \<open>\<open>s.replace(old, new)\<close>: every occurrence, left to right, without overlap\<close>
  "replace old new s =
     (if old = [] then new @ concat (map (\<lambda>c. c # new) s)
      else if s = [] then []
      else if old \<noteq> [] \<and> starts_with old s then new @ replace old new (drop (length old) s)
      else hd s # replace old new (tl s))"
  by pat_completeness auto
termination
  by (relation "measure (\<lambda>(old, new, s). length s)") auto

definition colors_match_at :: "string \<Rightarrow> string option" where
  \<comment> \<open>the pattern \<open>(\d+)\s+Colors\<close> tried at the head of the text; the result is group 1\<close>
  "colors_match_at s =
     (let d = takeWhile is_digit s; r = dropWhile is_digit s;
          w = takeWhile is_space r; r' = dropWhile is_space r
      in if d \<noteq> [] \<and> w \<noteq> [] \<and> starts_with ''Colors'' r' then Some d else None)"

definition scan_paragraph :: "string \<Rightarrow> product \<Rightarrow> product" where
  \<comment> \<open>the body of the loop over the detail paragraphs\<close>
  "scan_paragraph p product =
     (let text = strip p in
      if starts_with ''Rating:'' text
        then product(''rating'' \<mapsto> strip (replace ''Rating: '' [] text))
      else if contains ''Colors'' text
        then product(''colors'' \<mapsto> (case re_search colors_match_at text of Some g \<Rightarrow> g | None \<Rightarrow> ''0''))
      else if starts_with ''Size:'' text
        then product(''size'' \<mapsto> strip (replace ''Size: '' [] text))
      else if starts_with ''Gender:'' text
        then product(''gender'' \<mapsto> strip (replace ''Gender: '' [] text))
      else product)"

definition parse_card :: "string \<Rightarrow> card \<Rightarrow> product" where
  \<comment> \<open>the body of the loop over the cards\<close>
  "parse_card stamp c =
     (let product = Map.empty;
          product = product(''title'' \<mapsto>
                      (case title_element c of Some t \<Rightarrow> strip t | None \<Rightarrow> ''Unknown''));
          product = (case price_element c of
                       Some t \<Rightarrow> product(''price'' \<mapsto> strip t)
                     | None \<Rightarrow> product(''price'' \<mapsto> ''Price Unavailable''));
          product = product(''rating'' \<mapsto> ''Not Rated'');
          product = product(''colors'' \<mapsto> ''0'');
          product = product(''size'' \<mapsto> ''Unknown'');
          product = product(''gender'' \<mapsto> ''Unknown'');
          product = fold scan_paragraph (detail_paragraphs c) product;
          product = product(''timestamp'' \<mapsto> stamp)
      in product)"


section \<open>The pagination driver (utils/extract.py, extract\_fashion\_data)\<close>





section \<open>The sink (utils/load.py)\<close>






section \<open>Notions of the specification\<close>

definition score_scale_at :: "string \<Rightarrow> string \<Rightarrow> string \<Rightarrow> bool" where
  \<comment> \<open>the text starts with "score / scale": the score is the digits \<open>ip\<close>, or \<open>ip\<close>, a
      point and the digits \<open>fp\<close>; white space may stand on both sides of the slash; the
      scale starts with a digit\<close>
  "score_scale_at s ip fp =
     (\<exists>point w1 w2 e rest.
        ip \<noteq> [] \<and> (\<forall>c\<in>set ip. is_digit c) \<and> (\<forall>c\<in>set fp. is_digit c) \<and>
        (point = [] \<and> fp = [] \<or> point = ''.'') \<and>
        (\<forall>c\<in>set w1. is_space c) \<and> (\<forall>c\<in>set w2. is_space c) \<and> is_digit e \<and>
        s = ip @ point @ fp @ w1 @ CHR ''/'' # w2 @ e # rest)"





definition keep_first :: "('a \<Rightarrow> 'k) \<Rightarrow> 'a list \<Rightarrow> 'a list" where
  \<comment> \<open>deduplication that keeps the first occurrence: an entry stays when no entry before
      it has its key; the order of the entries that stay is that of the sequence\<close>
  "keep_first key xs =
     map (nth xs) (filter (\<lambda>i. \<forall>j<i. key (xs ! j) \<noteq> key (xs ! i)) [0..<length xs])"


definition normalize_record :: "raw_record \<Rightarrow> row" where
  \<comment> \<open>the five field normalizers applied to one raw record\<close>
  "normalize_record r =
     \<lparr>title = Some (raw_title r),
      price = (case clean_price (Some (raw_price r)) of Inr v \<Rightarrow> Some v | Inl e \<Rightarrow> None),
      rating = (case clean_rating (Some (raw_rating r)) of Inr v \<Rightarrow> v | Inl e \<Rightarrow> None),
      colors = clean_colors (Some (raw_colors r)),
      size_col = standardize_size (Some (raw_size r)),
      gender = standardize_gender (Some (raw_gender r)),
      timestamp = raw_timestamp r\<rparr>"

definition no_absent :: "row \<Rightarrow> bool" where
  \<comment> \<open>no absent value among title, price, rating, colors, size and gender\<close>
  "no_absent r = (title r \<noteq> None \<and> price r \<noteq> None \<and> rating r \<noteq> None \<and>
                  colors r \<noteq> None \<and> size_col r \<noteq> None \<and> gender r \<noteq> None)"

definition spec_validator :: "raw_record list \<Rightarrow> row list" where
  \<comment> \<open>the steps 1 to 5 of the validator as the specification lists them\<close>
  "spec_validator raw_data =
     keep_first dedup_key
       (filter price_positive
         (filter no_absent
           (filter (\<lambda>r. is_valid_title (title r))
             (map normalize_record raw_data))))"

section \<open>Example inputs\<close>

definition star_sign :: string where
  \<comment> \<open>the star of the rating texts, U+2B50, in UTF-8\<close>
  "star_sign = [CHR 0xE2, CHR 0xAD, CHR 0x90]"





definition example_raw :: raw_record where
  "example_raw = \<lparr>raw_title = ''T-shirt 1'', raw_price = ''$25.99'',
                   raw_rating = star_sign @ '' 4.5 / 5'', raw_colors = ''3'', raw_size = ''M'',
                   raw_gender = ''Men'', raw_timestamp = ''2025-06-15 10:00:00''\<rparr>"

definition example_row :: row where
  "example_row = \<lparr>title = Some ''T-shirt 1'', price = Some 415840, rating = Some 4.5,
                   colors = Some 3, size_col = Some ''M'', gender = Some ''Men'',
                   timestamp = ''2025-06-15 10:00:00''\<rparr>"

section \<open>Lemmas on the text primitives and on the pattern search\<close>

lemma all_le_Suc: "(\<forall>n \<le> Suc k. P n) \<longleftrightarrow> P 0 \<and> (\<forall>n \<le> k. P (Suc n))"
  by (metis Suc_le_mono le0 not0_implies_Suc)

lemma span_exact:
  assumes "\<forall>x\<in>set xs. P x" and "ys = [] \<or> \<not> P (hd ys)"
  shows "takeWhile P (xs @ ys) = xs" and "dropWhile P (xs @ ys) = ys"
  using assms by (cases ys; simp add: takeWhile_append2 dropWhile_append2)+

lemma point_not_digit: "\<not> is_digit CHR ''.''"
  by (simp add: is_digit_def)

lemma decimal_value_nonneg: "0 \<le> decimal_value ip fp"
  by (simp add: decimal_value_def)

lemma float_of_token_digits:
  assumes "ds \<noteq> []" and "\<forall>c\<in>set ds. is_digit c"
  shows "float_of_token ds = Inr (decimal_value ds [])"
proof -
  have t: "takeWhile is_digit ds = ds" and d: "dropWhile is_digit ds = []"
    using assms(2) by simp_all
  show ?thesis unfolding float_of_token_def Let_def t d using assms(1) by simp
qed

lemma float_of_token_point:
  assumes "ds \<noteq> []" and "\<forall>c\<in>set ds. is_digit c" and "\<forall>c\<in>set fp. is_digit c"
  shows "float_of_token (ds @ CHR ''.'' # fp) = Inr (decimal_value ds fp)"
proof -
  have t: "takeWhile is_digit (ds @ CHR ''.'' # fp) = ds"
    and d: "dropWhile is_digit (ds @ CHR ''.'' # fp) = CHR ''.'' # fp"
    using span_exact [of ds is_digit "CHR ''.'' # fp"] assms(2) point_not_digit by simp_all
  show ?thesis unfolding float_of_token_def Let_def t d using assms(1,3) by (simp add: list_all_iff)
qed

lemma re_search_none:
  "re_search m s = None \<longleftrightarrow> (\<forall>n \<le> length s. m (drop n s) = None)"
  by (induction s) (simp_all add: all_le_Suc split: option.splits)

lemma re_search_first:
  assumes "m t = Some g" and "\<forall>n < length pre. m (drop n (pre @ t)) = None"
  shows "re_search m (pre @ t) = Some g"
  using assms
proof (induction pre)
  case Nil
  then show ?case by (cases t) simp_all
next
  case (Cons c pre)
  then show ?case by (simp add: All_less_Suc2)
qed

lemma re_search_hit: "re_search m s = Some g \<Longrightarrow> \<exists>n. m (drop n s) = Some g"
proof (induction s)
  case Nil
  then show ?case by auto
next
  case (Cons c cs)
  then show ?case by (cases "m (c # cs)") (metis drop_Suc_Cons option.simps(4) re_search.simps(2), metis drop0 option.simps(5) re_search.simps(2))
qed

lemma re_search_skip:
  "\<forall>c\<in>set pre. \<forall>cs. m (c # cs) = None \<Longrightarrow> re_search m (pre @ t) = re_search m t"
  by (induction pre) simp_all

lemma re_search_here: "m t = Some g \<Longrightarrow> re_search m t = Some g"
  by (cases t) simp_all

lemma remove_commas_free: "CHR '','' \<notin> set (remove_commas s)"
  by (simp add: remove_commas_def)

lemma price_match_at_stuck:
  "s = [] \<or> \<not> digit_or_comma (hd s) \<Longrightarrow> price_match_at s = None"
  by (cases s) (auto simp: price_match_at_def)

lemma price_match_at_token:
  assumes ds: "ds \<noteq> []" "\<forall>c\<in>set ds. is_digit c"
    and rest: "rest = [] \<or> \<not> is_digit (hd rest)" "CHR '','' \<notin> set rest"
  shows "price_match_at (ds @ rest) =
           Some (ds @ (case rest of [] \<Rightarrow> []
                       | d # r' \<Rightarrow> if d = CHR ''.'' then d # takeWhile is_digit r' else []))"
proof -
  have stop: "rest = [] \<or> \<not> digit_or_comma (hd rest)"
    using rest by (cases rest) (auto simp: digit_or_comma_def)
  have all: "\<forall>c\<in>set ds. digit_or_comma c"
    using ds(2) by (simp add: digit_or_comma_def)
  have t: "takeWhile digit_or_comma (ds @ rest) = ds"
    and d: "dropWhile digit_or_comma (ds @ rest) = rest"
    using span_exact [of ds digit_or_comma rest] all stop by simp_all
  show ?thesis unfolding price_match_at_def Let_def t d using ds(1) by simp
qed

lemma price_token_converts:
  assumes ds: "ds \<noteq> []" "\<forall>c\<in>set ds. is_digit c"
  shows "float_of_token (ds @ (case rest of [] \<Rightarrow> []
                       | d # r' \<Rightarrow> if d = CHR ''.'' then d # takeWhile is_digit r' else [])) =
         Inr (decimal_value ds (case rest of [] \<Rightarrow> []
                       | d # r' \<Rightarrow> if d = CHR ''.'' then takeWhile is_digit r' else []))"
  using float_of_token_digits [OF ds] float_of_token_point [OF ds, of "takeWhile is_digit (tl rest)"]
  by (cases rest) (auto dest: set_takeWhileD)

lemma price_match_at_converts:
  assumes "CHR '','' \<notin> set u" and "price_match_at u = Some tok"
  shows "\<exists>ip fp. float_of_token tok = Inr (decimal_value ip fp)"
proof -
  define ds where "ds = takeWhile is_digit u"
  define rest where "rest = dropWhile is_digit u"
  have dig: "\<forall>c\<in>set ds. is_digit c" by (auto simp: ds_def dest: set_takeWhileD)
  have stop: "rest = [] \<or> \<not> is_digit (hd rest)" unfolding rest_def by (metis hd_dropWhile)
  have free: "CHR '','' \<notin> set rest" using assms(1) by (auto simp: rest_def dest: set_dropWhileD)
  have ne: "ds \<noteq> []"
    using assms price_match_at_stuck [of u] by (cases u) (auto simp: ds_def digit_or_comma_def)
  show ?thesis
    using price_match_at_token [OF ne dig stop free] price_token_converts [OF ne dig, of rest] assms(2)
    by (auto simp: ds_def rest_def)
qed

lemma clean_price_total: "\<exists>v. clean_price p = Inr v \<and> 0 \<le> v"
proof (cases "\<exists>s tok. p = Some s \<and> s \<noteq> [] \<and> s \<noteq> ''Price Unavailable'' \<and>
    re_search price_match_at (remove_commas s) = Some tok")
  case True
  then obtain s tok n where s: "p = Some s" "s \<noteq> []" "s \<noteq> ''Price Unavailable''"
    "re_search price_match_at (remove_commas s) = Some tok"
    "price_match_at (drop n (remove_commas s)) = Some tok"
    using re_search_hit by blast
  have "CHR '','' \<notin> set (drop n (remove_commas s))"
    using remove_commas_free by (metis in_set_dropD)
  then obtain ip fp where "float_of_token tok = Inr (decimal_value ip fp)"
    using price_match_at_converts s(5) by blast
  then show ?thesis using s decimal_value_nonneg
    by (simp add: clean_price_def USD_TO_IDR_RATE_def)
next
  case False
  then show ?thesis by (auto simp: clean_price_def split: option.splits)
qed

lemma price_search_first_token:
  assumes t: "t = pre @ ds @ rest" and free: "CHR '','' \<notin> set t"
    and pre: "\<forall>c\<in>set pre. \<not> is_digit c"
    and ds: "ds \<noteq> []" "\<forall>c\<in>set ds. is_digit c"
    and rest: "rest = [] \<or> \<not> is_digit (hd rest)"
  shows "re_search price_match_at t =
           Some (ds @ (case rest of [] \<Rightarrow> []
                       | d # r' \<Rightarrow> if d = CHR ''.'' then d # takeWhile is_digit r' else []))"
proof -
  have "\<forall>c\<in>set pre. \<forall>cs. price_match_at (c # cs) = None"
    using pre free t by (auto intro!: price_match_at_stuck simp: digit_or_comma_def)
  then have "re_search price_match_at t = re_search price_match_at (ds @ rest)"
    unfolding t by (rule re_search_skip)
  then show ?thesis
    using price_match_at_token [OF ds rest] free t by (simp add: re_search_here)
qed

lemma price_search_no_digit:
  assumes "CHR '','' \<notin> set t" and "\<forall>c\<in>set t. \<not> is_digit c"
  shows "re_search price_match_at t = None"
proof -
  have "\<forall>c\<in>set t. \<forall>cs. price_match_at (c # cs) = None"
    using assms by (auto intro!: price_match_at_stuck simp: digit_or_comma_def)
  then have "re_search price_match_at (t @ []) = re_search price_match_at []"
    by (rule re_search_skip)
  then show ?thesis by (simp add: price_match_at_def)
qed

lemma digit_not_space: "is_digit c \<Longrightarrow> \<not> is_space c"
  by (auto simp: is_digit_def is_space_def)

lemma strip_no_space:
  assumes "s \<noteq> []" and "\<not> is_space (hd s)" and "\<not> is_space (last s)"
  shows "strip s = s"
proof -
  have a: "dropWhile is_space s = s" using assms(1,2) by (cases s) auto
  have "rev s \<noteq> []" "\<not> is_space (hd (rev s))" using assms(1,3) by (simp_all add: hd_rev)
  then have b: "dropWhile is_space (rev s) = rev s" by (cases "rev s") auto
  show ?thesis unfolding strip_def a b by simp
qed

lemma int_body_digits: "\<forall>c\<in>set ds. is_digit c \<Longrightarrow> ds \<noteq> [] \<Longrightarrow> int_body ds"
  by (induction ds rule: int_body.induct) (auto simp: is_digit_def)

lemma int_body_chars: "int_body b \<Longrightarrow> c \<in> set b \<Longrightarrow> is_digit c \<or> c = CHR ''_''"
  by (induction b rule: int_body.induct) (auto split: if_splits)

lemma py_int_digits:
  assumes "ds \<noteq> []" and "\<forall>c\<in>set ds. is_digit c"
  shows "py_int ds = Inr (int (nat_of_digits ds))"
proof -
  have "is_digit (hd ds)" "is_digit (last ds)" using assms by simp_all
  then have s: "strip ds = ds" using strip_no_space assms(1) digit_not_space by blast
  obtain c r where cr: "ds = c # r" using assms(1) by (cases ds) auto
  then have c: "c \<noteq> CHR ''-''" "c \<noteq> CHR ''+''" using assms(2) by (auto simp: is_digit_def)
  have f: "filter (\<lambda>c. c \<noteq> CHR ''_'') ds = ds"
    using assms(2) by (auto simp: is_digit_def filter_id_conv)
  have b: "int_body ds" using int_body_digits assms by blast
  show ?thesis unfolding py_int_def s Let_def using c b f cr by simp
qed

lemma py_int_foreign:
  assumes "c \<in> set s" and "\<not> is_digit c" and "\<not> is_space c"
    and "c \<noteq> CHR ''+''" and "c \<noteq> CHR ''-''" and "c \<noteq> CHR ''_''"
  shows "py_int s = Inl ValueError"
proof -
  define body where "body = (case strip s of [] \<Rightarrow> []
      | c # r \<Rightarrow> if c = CHR ''-'' \<or> c = CHR ''+'' then r else strip s)"
  have d: "c \<in> set u \<Longrightarrow> c \<in> set (dropWhile is_space u)" for u
    using assms(3) by (induction u) auto
  have "c \<in> set (strip s)"
    using assms(1) d [of s] d [of "rev (dropWhile is_space s)"] by (simp add: strip_def)
  then have "c \<in> set body" using assms(4,5) by (cases "strip s") (auto simp: body_def)
  then have "\<not> int_body body" using int_body_chars assms(2,6) by blast
  then show ?thesis by (simp add: py_int_def Let_def body_def)
qed

lemma starts_with_iff: "starts_with p s \<longleftrightarrow> (\<exists>post. s = p @ post)"
proof
  assume "starts_with p s"
  then have "s = p @ drop (length p) s"
    unfolding starts_with_def by (metis append_take_drop_id)
  then show "\<exists>post. s = p @ post" ..
next
  assume "\<exists>post. s = p @ post"
  then show "starts_with p s" by (auto simp: starts_with_def)
qed

lemma contains_iff: "contains sub s \<longleftrightarrow> (\<exists>pre post. s = pre @ sub @ post)"
proof (induction s)
  case Nil
  then show ?case by auto
next
  case (Cons c cs)
  have "(\<exists>pre post. c # cs = pre @ sub @ post) \<longleftrightarrow>
        (\<exists>post. c # cs = sub @ post) \<or> (\<exists>pre post. cs = pre @ sub @ post)"
    by (auto simp: Cons_eq_append_conv)
  then show ?case using Cons.IH by (simp add: starts_with_iff)
qed

lemma space_facts:
  "is_space c \<Longrightarrow> \<not> is_digit c" "is_space c \<Longrightarrow> c \<noteq> CHR ''.''" "is_space c \<Longrightarrow> c \<noteq> CHR ''/''"
  "\<not> is_digit CHR ''/''" "\<not> is_space CHR ''/''"
  by (auto simp: is_space_def is_digit_def)

lemma rating_match_at_complete:
  assumes "score_scale_at s ip fp"
  shows "\<exists>g. rating_match_at s = Some g \<and> float_of_token g = Inr (decimal_value ip fp)"
proof -
  obtain point w1 w2 e rest where
    ip: "ip \<noteq> []" "\<forall>c\<in>set ip. is_digit c" and fp: "\<forall>c\<in>set fp. is_digit c"
    and pt: "point = [] \<and> fp = [] \<or> point = ''.''"
    and w: "\<forall>c\<in>set w1. is_space c" "\<forall>c\<in>set w2. is_space c" and e: "is_digit e"
    and s: "s = ip @ point @ fp @ w1 @ CHR ''/'' # w2 @ e # rest"
    using assms unfolding score_scale_at_def by blast
  define tail where "tail = w1 @ CHR ''/'' # w2 @ e # rest"
  have tail_hd: "tail \<noteq> []" "\<not> is_digit (hd tail)" "hd tail \<noteq> CHR ''.''"
    using w(1) space_facts by (cases w1; auto simp: tail_def is_digit_def)+
  have r4: "dropWhile is_space tail = CHR ''/'' # w2 @ e # rest"
    unfolding tail_def using span_exact(2) [of w1 is_space "CHR ''/'' # w2 @ e # rest"] w(1) space_facts(5)
    by simp
  have r5: "dropWhile is_space (w2 @ e # rest) = e # rest"
    using span_exact(2) [of w2 is_space "e # rest"] w(2) e space_facts(1) by auto
  from pt show ?thesis
  proof
    assume p: "point = [] \<and> fp = []"
    then have s': "s = ip @ tail" using s by (simp add: tail_def)
    have t1: "takeWhile is_digit s = ip" and d1: "dropWhile is_digit s = tail"
      unfolding s' using span_exact [of ip is_digit tail] ip(2) tail_hd by simp_all
    have nd: "(case tail of [] \<Rightarrow> False | c # _ \<Rightarrow> c = CHR ''.'') = False"
      using tail_hd by (cases tail) auto
    have t2: "takeWhile is_digit tail = []" and d2: "dropWhile is_digit tail = tail"
      using tail_hd by (cases tail; simp)+
    have "rating_match_at s = Some ip"
      unfolding rating_match_at_def Let_def t1 d1 nd using ip(1) by (simp add: t2 d2 r4 r5 e)
    moreover have "float_of_token ip = Inr (decimal_value ip fp)"
      using float_of_token_digits [OF ip] p by simp
    ultimately show ?thesis by blast
  next
    assume p: "point = ''.''"
    then have s': "s = ip @ CHR ''.'' # fp @ tail" using s by (simp add: tail_def)
    have t1: "takeWhile is_digit s = ip" and d1: "dropWhile is_digit s = CHR ''.'' # fp @ tail"
      unfolding s' using span_exact [of ip is_digit "CHR ''.'' # fp @ tail"] ip(2) point_not_digit
      by simp_all
    have t2: "takeWhile is_digit (fp @ tail) = fp" and d2: "dropWhile is_digit (fp @ tail) = tail"
      using span_exact [of fp is_digit tail] fp tail_hd by simp_all
    have "rating_match_at s = Some (ip @ CHR ''.'' # fp)"
      unfolding rating_match_at_def Let_def t1 d1 using ip(1) by (simp add: t2 d2 r4 r5 e)
    moreover have "float_of_token (ip @ CHR ''.'' # fp) = Inr (decimal_value ip fp)"
      using float_of_token_point [OF ip fp] .
    ultimately show ?thesis by blast
  qed
qed

lemma rating_match_at_sound:
  assumes "rating_match_at s = Some g"
  shows "\<exists>ip fp. score_scale_at s ip fp \<and> float_of_token g = Inr (decimal_value ip fp)"
proof -
  define d1 where "d1 = takeWhile is_digit s"
  define r1 where "r1 = dropWhile is_digit s"
  define dot where "dot = (case r1 of [] \<Rightarrow> False | c # _ \<Rightarrow> c = CHR ''.'')"
  define r2 where "r2 = (if dot then tl r1 else r1)"
  define d2 where "d2 = takeWhile is_digit r2"
  define r3 where "r3 = dropWhile is_digit r2"
  define w1 where "w1 = takeWhile is_space r3"
  define r4 where "r4 = dropWhile is_space r3"
  have m: "(if d1 = [] then None
         else (case r4 of
                 [] \<Rightarrow> None
               | c # r5 \<Rightarrow>
                   if c = CHR ''/'' \<and> (case dropWhile is_space r5 of [] \<Rightarrow> False | e # _ \<Rightarrow> is_digit e)
                   then Some (d1 @ (if dot then CHR ''.'' # d2 else []))
                   else None)) = Some g"
    using assms unfolding rating_match_at_def Let_def d1_def r1_def dot_def r2_def d2_def r3_def r4_def
    by simp
  have ne: "d1 \<noteq> []" using m by (auto split: if_splits)
  obtain r5 where r4': "r4 = CHR ''/'' # r5" and
    sc: "(case dropWhile is_space r5 of [] \<Rightarrow> False | e # _ \<Rightarrow> is_digit e)" and
    g: "g = d1 @ (if dot then CHR ''.'' # d2 else [])"
    using m ne by (auto split: list.splits if_splits)
  define w2 where "w2 = takeWhile is_space r5"
  obtain e rest where er: "dropWhile is_space r5 = e # rest" and e: "is_digit e"
    using sc by (auto split: list.splits)
  have dig1: "\<forall>c\<in>set d1. is_digit c" and dig2: "\<forall>c\<in>set d2. is_digit c"
    and sp1: "\<forall>c\<in>set w1. is_space c" and sp2: "\<forall>c\<in>set w2. is_space c"
    by (auto simp: d1_def d2_def w1_def w2_def dest: set_takeWhileD)
  have s1: "s = d1 @ r1" by (simp add: d1_def r1_def)
  have s2: "r2 = d2 @ r3" by (simp add: d2_def r3_def)
  have s3: "r3 = w1 @ r4" by (simp add: w1_def r4_def)
  have s5: "r5 = w2 @ e # rest" using er by (metis takeWhile_dropWhile_id w2_def)
  show ?thesis
  proof (cases dot)
    case True
    then obtain t where "r1 = CHR ''.'' # t" by (auto simp: dot_def split: list.splits)
    then have "r1 = CHR ''.'' # r2" using True by (simp add: r2_def)
    then have "s = d1 @ ''.'' @ d2 @ w1 @ CHR ''/'' # w2 @ e # rest"
      using s1 s2 s3 r4' s5 by simp
    then have "score_scale_at s d1 d2"
      unfolding score_scale_at_def using ne dig1 dig2 sp1 sp2 e by blast
    moreover have "float_of_token g = Inr (decimal_value d1 d2)"
      using g True float_of_token_point [OF ne dig1 dig2] by simp
    ultimately show ?thesis by blast
  next
    case False
    then have r21: "r2 = r1" by (simp add: r2_def)
    have "r1 = [] \<or> \<not> is_digit (hd r1)" unfolding r1_def by (metis hd_dropWhile)
    then have "d2 = []" unfolding d2_def r21 by (cases r1) auto
    then have "s = d1 @ [] @ [] @ w1 @ CHR ''/'' # w2 @ e # rest"
      using s1 s2 s3 r4' s5 r21 by simp
    then have "score_scale_at s d1 []"
      unfolding score_scale_at_def using ne dig1 sp1 sp2 e
      by (intro exI [where x = "[]"] exI [where x = w1] exI [where x = w2]
          exI [where x = e] exI [where x = rest]) simp
    moreover have "float_of_token g = Inr (decimal_value d1 [])"
      using g False float_of_token_digits [OF ne dig1] by simp
    ultimately show ?thesis by blast
  qed
qed

lemma score_scale_at_slash: "score_scale_at t a b \<Longrightarrow> CHR ''/'' \<in> set t"
  unfolding score_scale_at_def by auto

lemma no_match_no_score: "rating_match_at t = None \<Longrightarrow> \<not> score_scale_at t a b"
  using rating_match_at_complete by fastforce

section \<open>Lemmas on the card parser and the driver\<close>



lemma scan_paragraph_ignored:
  assumes "\<not> starts_with ''Rating:'' (strip l)" "\<not> contains ''Colors'' (strip l)"
    "\<not> starts_with ''Size:'' (strip l)" "\<not> starts_with ''Gender:'' (strip l)"
  shows "scan_paragraph l m = m"
  using assms by (simp add: scan_paragraph_def Let_def)









section \<open>Lemmas on the removal of duplicates\<close>

lemma indices_Cons:
  "map (nth (x # xs)) (filter P [0..<length (x # xs)]) =
     (if P 0 then [x] else []) @ map (nth xs) (filter (\<lambda>i. P (Suc i)) [0..<length xs])"
proof -
  have "[0..<length (x # xs)] = 0 # map Suc [0..<length xs]"
    by (simp add: upt_conv_Cons map_Suc_upt del: upt_Suc)
  then show ?thesis by (simp add: filter_map comp_def)
qed

lemma drop_duplicates_first_indices:
  "drop_duplicates_first key seen xs =
     map (nth xs) (filter (\<lambda>i. key (xs ! i) \<notin> set seen \<and> (\<forall>j<i. key (xs ! j) \<noteq> key (xs ! i)))
                    [0..<length xs])"
proof (induction xs arbitrary: seen)
  case Nil
  then show ?case by simp
next
  case (Cons x xs)
  show ?case
  proof (cases "key x \<in> set seen")
    case True
    have "filter (\<lambda>i. key (xs ! i) \<notin> set seen \<and> (\<forall>j<i. key (xs ! j) \<noteq> key (xs ! i))) [0..<length xs]
        = filter (\<lambda>i. key ((x # xs) ! Suc i) \<notin> set seen \<and>
                      (\<forall>j<Suc i. key ((x # xs) ! j) \<noteq> key ((x # xs) ! Suc i))) [0..<length xs]"
      using True by (intro filter_cong refl) (auto simp: All_less_Suc2)
    then show ?thesis
      using True Cons.IH [of seen] by (simp only: indices_Cons drop_duplicates_first.simps) simp
  next
    case False
    have "filter (\<lambda>i. key (xs ! i) \<notin> set (key x # seen) \<and> (\<forall>j<i. key (xs ! j) \<noteq> key (xs ! i)))
            [0..<length xs]
        = filter (\<lambda>i. key ((x # xs) ! Suc i) \<notin> set seen \<and>
                      (\<forall>j<Suc i. key ((x # xs) ! j) \<noteq> key ((x # xs) ! Suc i))) [0..<length xs]"
      by (intro filter_cong refl) (auto simp: All_less_Suc2)
    then show ?thesis
      using False Cons.IH [of "key x # seen"]
      by (simp only: indices_Cons drop_duplicates_first.simps) simp
  qed
qed

lemma drop_duplicates_first_keep_first:
  "drop_duplicates_first key [] xs = keep_first key xs"
  by (simp add: drop_duplicates_first_indices keep_first_def)





section \<open>Lemmas on the validator\<close>

lemma clean_rating_total: "\<exists>v. clean_rating p = Inr v"
proof (cases p)
  case None
  then show ?thesis by (simp add: clean_rating_def)
next
  case (Some s)
  show ?thesis
  proof (cases "re_search rating_match_at s")
    case None
    then show ?thesis using Some by (simp add: clean_rating_def)
  next
    case (Some g)
    then obtain n where "rating_match_at (drop n s) = Some g" using re_search_hit by blast
    then obtain ip fp where "float_of_token g = Inr (decimal_value ip fp)"
      using rating_match_at_sound by blast
    then show ?thesis using Some \<open>p = Some s\<close> by (simp add: clean_rating_def)
  qed
qed

lemma apply_series_total:
  "\<forall>x\<in>set xs. \<exists>y. f x = Inr y \<Longrightarrow> apply_series f xs = Inr (map (\<lambda>x. projr (f x)) xs)"
  by (induction xs) auto

lemma normalize_price:
  "price (normalize_record r) = Some (projr (clean_price (Some (raw_price r))))"
proof -
  obtain v where "clean_price (Some (raw_price r)) = Inr v" using clean_price_total by blast
  then show ?thesis by (simp add: normalize_record_def)
qed

lemma normalize_rating:
  "rating (normalize_record r) = projr (clean_rating (Some (raw_rating r)))"
proof -
  obtain v where "clean_rating (Some (raw_rating r)) = Inr v" using clean_rating_total by blast
  then show ?thesis by (simp add: normalize_record_def)
qed

lemma make_frame_normalize:
  "make_frame raw_data
     (map (\<lambda>x. projr (clean_price x)) (map (\<lambda>r. Some (raw_price r)) raw_data))
     (map (\<lambda>x. projr (clean_rating x)) (map (\<lambda>r. Some (raw_rating r)) raw_data))
     (map (\<lambda>r. clean_colors (Some (raw_colors r))) raw_data)
     (map (\<lambda>r. standardize_size (Some (raw_size r))) raw_data)
     (map (\<lambda>r. standardize_gender (Some (raw_gender r))) raw_data)
   = zip [0..<length raw_data] (map normalize_record raw_data)" (is "?l = ?r")
proof (rule nth_equalityI)
  show "length ?l = length ?r" by (simp add: make_frame_def)
next
  fix i assume "i < length ?l"
  then have i: "i < length raw_data" by (simp add: make_frame_def)
  have "normalize_record (raw_data ! i) =
      \<lparr>title = Some (raw_title (raw_data ! i)),
       price = Some (projr (clean_price (Some (raw_price (raw_data ! i))))),
       rating = projr (clean_rating (Some (raw_rating (raw_data ! i)))),
       colors = clean_colors (Some (raw_colors (raw_data ! i))),
       size_col = standardize_size (Some (raw_size (raw_data ! i))),
       gender = standardize_gender (Some (raw_gender (raw_data ! i))),
       timestamp = raw_timestamp (raw_data ! i)\<rparr>"
    using normalize_price [of "raw_data ! i"] normalize_rating [of "raw_data ! i"]
    by (simp add: normalize_record_def)
  then show "?l ! i = ?r ! i" using i by (simp add: make_frame_def)
qed

lemma rows_filter: "map snd (filter (\<lambda>(i, r). P r) df) = filter P (map snd df)"
  by (induction df) auto

lemma rows_drop_duplicates_first:
  "map snd (drop_duplicates_first (\<lambda>(i, r). key r) seen df) =
     drop_duplicates_first key seen (map snd df)"
  by (induction df arbitrary: seen) auto

lemma rows_zip: "map snd (zip [0..<length xs] (map f xs)) = map f xs"
  by (simp add: map_snd_zip)

lemma transform_pipeline:
  "transform_fashion_data raw_data =
     Inr (zip [0..<length (spec_validator raw_data)] (spec_validator raw_data))"
proof (cases "raw_data = []")
  case True
  then show ?thesis
    by (simp add: transform_fashion_data_def spec_validator_def keep_first_def)
next
  case False
  have p: "apply_series clean_price (map (\<lambda>r. Some (raw_price r)) raw_data) =
      Inr (map (\<lambda>x. projr (clean_price x)) (map (\<lambda>r. Some (raw_price r)) raw_data))"
    using clean_price_total by (intro apply_series_total) blast
  have r: "apply_series clean_rating (map (\<lambda>r. Some (raw_rating r)) raw_data) =
      Inr (map (\<lambda>x. projr (clean_rating x)) (map (\<lambda>r. Some (raw_rating r)) raw_data))"
    using clean_rating_total by (intro apply_series_total) blast
  define df where "df = drop_duplicates_first (\<lambda>(i, r). dedup_key r) []
      (filter (\<lambda>(i, r). price_positive r)
        (dropna
          (filter (\<lambda>(i, r). is_valid_title (title r))
            (zip [0..<length raw_data] (map normalize_record raw_data)))))"
  have t: "transform_fashion_data raw_data = Inr (reset_index df)"
    using False
    by (simp only: transform_fashion_data_def p r sum.case Let_def make_frame_normalize
        df_def if_False)
  have dn: "dropna d = filter (\<lambda>(i, r). no_absent r) d" for d
    by (simp add: dropna_def no_absent_def)
  have "map snd df = spec_validator raw_data"
    unfolding df_def spec_validator_def drop_duplicates_first_keep_first [symmetric] dn
    by (simp only: rows_drop_duplicates_first rows_filter rows_zip length_map)
  then have m: "map snd df = spec_validator raw_data" .
  have "length df = length (spec_validator raw_data)" using m by (metis length_map)
  then show ?thesis using t m by (simp add: reset_index_def)
qed

lemma set_drop_duplicates_first: "set (drop_duplicates_first key seen xs) \<subseteq> set xs"
  by (induction xs arbitrary: seen) auto

lemma spec_validator_rows:
  assumes "r \<in> set (spec_validator raw_data)"
  shows "no_absent r \<and> price_positive r"
proof -
  have "r \<in> set (filter price_positive (filter no_absent
           (filter (\<lambda>r. is_valid_title (title r)) (map normalize_record raw_data))))"
    using assms set_drop_duplicates_first [of dedup_key "[]"]
    unfolding spec_validator_def drop_duplicates_first_keep_first [symmetric]
    by (meson subsetD)
  then show ?thesis by simp
qed

lemma normalize_example: "normalize_record example_raw = example_row"
  by (simp add: normalize_record_def example_raw_def example_row_def star_sign_def
      clean_price_def remove_commas_def price_match_at_def digit_or_comma_def
      clean_rating_def starts_with_def rating_match_at_def
      clean_colors_def py_int_def standardize_size_def standardize_gender_def
      size_mapping_def gender_mapping_def upper_def upper_char_def strip_def
      is_digit_def is_space_def float_of_token_def decimal_value_def nat_of_digits_def
      digit_val_def USD_TO_IDR_RATE_def)

lemma example_row_passes:
  "is_valid_title (title example_row) \<and> no_absent example_row \<and> price_positive example_row"
  by (simp add: example_row_def is_valid_title_def no_absent_def price_positive_def
      invalid_titles_def lower_def lower_char_def strip_def is_space_def)



section \<open>The price normalizer\<close>

text \<open>
  Claim C7. The price normalizer returns 0 on absent input, on the empty text and on
  \<open>"Price Unavailable"\<close>. On any other text it drops the commas and takes the first
  numeric token: the first run of digits, with the point that follows it and the digits
  after the point when there are any. The result is the value of that token times the
  conversion rate, and 0 when the text has no digit. In particular \<open>"$100.00"\<close> gives
  100 times the rate.
  The definition checked is \<open>clean_price\<close>.
\<close>

theorem clean_price_spec:
  "clean_price None = Inr 0 \<and> clean_price (Some []) = Inr 0 \<and>
   clean_price (Some ''Price Unavailable'') = Inr 0 \<and>
   ((\<forall>c\<in>set w. \<not> is_digit c) \<longrightarrow> clean_price (Some w) = Inr 0) \<and>
   (s \<noteq> ''Price Unavailable'' \<and> remove_commas s = pre @ ds @ rest \<and>
    (\<forall>c\<in>set pre. \<not> is_digit c) \<and> ds \<noteq> [] \<and> (\<forall>c\<in>set ds. is_digit c) \<and>
    (rest = [] \<or> \<not> is_digit (hd rest))
      \<longrightarrow> clean_price (Some s) =
            Inr (decimal_value ds (case rest of [] \<Rightarrow> []
                   | d # r' \<Rightarrow> if d = CHR ''.'' then takeWhile is_digit r' else [])
                 * USD_TO_IDR_RATE)) \<and>
   clean_price (Some ''$100.00'') = Inr (100 * USD_TO_IDR_RATE)"
proof -
  have a: "clean_price None = Inr 0" "clean_price (Some []) = Inr 0"
    "clean_price (Some ''Price Unavailable'') = Inr 0"
    by (simp_all add: clean_price_def)
  have b: "clean_price (Some w) = Inr 0" if "\<forall>c\<in>set w. \<not> is_digit c"
  proof -
    have "\<forall>c\<in>set (remove_commas w). \<not> is_digit c" using that by (simp add: remove_commas_def)
    then have "re_search price_match_at (remove_commas w) = None"
      using price_search_no_digit remove_commas_free by blast
    then show ?thesis by (simp add: clean_price_def)
  qed
  have c: "clean_price (Some s) =
            Inr (decimal_value ds (case rest of [] \<Rightarrow> []
                   | d # r' \<Rightarrow> if d = CHR ''.'' then takeWhile is_digit r' else [])
                 * USD_TO_IDR_RATE)"
    if h: "s \<noteq> ''Price Unavailable''" "remove_commas s = pre @ ds @ rest"
      "\<forall>c\<in>set pre. \<not> is_digit c" "ds \<noteq> []" "\<forall>c\<in>set ds. is_digit c"
      "rest = [] \<or> \<not> is_digit (hd rest)"
  proof -
    have ne: "s \<noteq> []" using h(2,4) by (auto simp: remove_commas_def)
    have "re_search price_match_at (remove_commas s) =
           Some (ds @ (case rest of [] \<Rightarrow> []
                       | d # r' \<Rightarrow> if d = CHR ''.'' then d # takeWhile is_digit r' else []))"
      using price_search_first_token [OF h(2) remove_commas_free h(3,4,5,6)] .
    then show ?thesis using ne h(1) price_token_converts [OF h(4,5), of rest]
      by (simp add: clean_price_def)
  qed
  have d: "clean_price (Some ''$100.00'') = Inr (100 * USD_TO_IDR_RATE)"
    by (simp add: clean_price_def remove_commas_def price_match_at_def digit_or_comma_def
        is_digit_def float_of_token_def decimal_value_def nat_of_digits_def digit_val_def)
  show ?thesis using a b c d by blast
qed

theorem clean_price_spec_witness:
  "clean_price (Some ''Not a price'') = Inr 0 \<and>
   clean_price (Some ''$1,234.56 each'') = Inr (decimal_value ''1234'' ''56'' * USD_TO_IDR_RATE) \<and>
   decimal_value ''1234'' ''56'' * USD_TO_IDR_RATE = 19752960"
proof -
  note h = clean_price_spec [of "''Not a price''" "''$1,234.56 each''" "''$''" "''1234''" "''.56 each''"]
  have 1: "\<forall>c\<in>set ''Not a price''. \<not> is_digit c" by (simp add: is_digit_def)
  have 2: "''$1,234.56 each'' \<noteq> ''Price Unavailable'' \<and>
           remove_commas ''$1,234.56 each'' = ''$'' @ ''1234'' @ ''.56 each'' \<and>
           (\<forall>c\<in>set ''$''. \<not> is_digit c) \<and> ''1234'' \<noteq> [] \<and> (\<forall>c\<in>set ''1234''. is_digit c) \<and>
           (''.56 each'' = [] \<or> \<not> is_digit (hd ''.56 each''))"
    by (simp add: remove_commas_def is_digit_def)
  have 3: "(case ''.56 each'' of [] \<Rightarrow> []
           | d # r' \<Rightarrow> if d = CHR ''.'' then takeWhile is_digit r' else []) = ''56''"
    by (simp add: is_digit_def)
  have "clean_price (Some ''Not a price'') = Inr 0" using h 1 by blast
  moreover have "clean_price (Some ''$1,234.56 each'') =
      Inr (decimal_value ''1234'' ''56'' * USD_TO_IDR_RATE)"
    using h 2 unfolding 3 by blast
  moreover have "decimal_value ''1234'' ''56'' * USD_TO_IDR_RATE = 19752960"
    by (simp add: decimal_value_def nat_of_digits_def digit_val_def USD_TO_IDR_RATE_def)
  ultimately show ?thesis by simp
qed


text \<open>
  Claim C10. The price normalizer returns a number on every input, it never raises, and
  the number is never negative. So a price that the validator's filter \<open>price > 0\<close>
  rejects is exactly 0.
  The definition checked is \<open>clean_price\<close>.
\<close>

theorem clean_price_nonneg:
  "(\<exists>v. clean_price p = Inr v \<and> 0 \<le> v) \<and>
   (clean_price q = Inr w \<and> \<not> price_positive (r\<lparr>price := Some w\<rparr>) \<longrightarrow> w = 0)"
proof -
  have "w = 0" if "clean_price q = Inr w" "\<not> price_positive (r\<lparr>price := Some w\<rparr>)"
  proof -
    obtain v where "clean_price q = Inr v" "0 \<le> v" using clean_price_total by blast
    then have "0 \<le> w" using that(1) by simp
    moreover have "w \<le> 0" using that(2) by (simp add: price_positive_def)
    ultimately show ?thesis by simp
  qed
  then show ?thesis using clean_price_total by blast
qed

theorem clean_price_nonneg_witness:
  "clean_price (Some ''-5'') = Inr 80000 \<and> (0::rat) \<le> 80000 \<and>
   clean_price (Some ''free'') = Inr 0 \<and>
   \<not> price_positive \<lparr>title = None, price = Some 0, rating = None, colors = None,
        size_col = None, gender = None, timestamp = []\<rparr>"
proof -
  have e: "clean_price (Some ''-5'') = Inr 80000" "clean_price (Some ''free'') = Inr 0"
    by (simp_all add: clean_price_def remove_commas_def price_match_at_def digit_or_comma_def
        is_digit_def float_of_token_def decimal_value_def nat_of_digits_def digit_val_def
        USD_TO_IDR_RATE_def)
  have n: "\<not> price_positive (\<lparr>title = None, price = None, rating = None, colors = None,
        size_col = None, gender = None, timestamp = []\<rparr>\<lparr>price := Some 0\<rparr>)"
    by (simp add: price_positive_def)
  note h = clean_price_nonneg [of "Some ''-5''" "Some ''free''" 0
      "\<lparr>title = None, price = None, rating = None, colors = None,
        size_col = None, gender = None, timestamp = []\<rparr>"]
  have "\<exists>v. clean_price (Some ''-5'') = Inr v \<and> 0 \<le> v" using h by blast
  then have "(0::rat) \<le> 80000" using e(1) by simp
  moreover have "(0::rat) = 0" using h e(2) n by blast
  ultimately show ?thesis using e n by (simp add: price_positive_def)
qed

section \<open>The rating normalizer\<close>

text \<open>
  Claim C4, as amended. The rating normalizer returns absent on absent input, on the
  empty text and on \<open>"Not Rated"\<close>, and on every text that contains
  \<open>"Invalid Rating"\<close>. On any other text it returns the score of the first
  "score / scale" pattern of the text, and absent when the text has no such pattern. In
  particular the star followed by \<open>" 4.5 / 5"\<close> gives 4.5.
  The definition checked is \<open>clean_rating\<close>.
\<close>

theorem clean_rating_spec:
  "clean_rating None = Inr None \<and> clean_rating (Some []) = Inr None \<and>
   clean_rating (Some ''Not Rated'') = Inr None \<and>
   ((\<exists>pre post. w = pre @ ''Invalid Rating'' @ post) \<longrightarrow> clean_rating (Some w) = Inr None) \<and>
   (s \<noteq> [] \<and> s \<noteq> ''Not Rated'' \<and> \<not> (\<exists>pre post. s = pre @ ''Invalid Rating'' @ post) \<and>
    n \<le> length s \<and> score_scale_at (drop n s) ip fp \<and>
    (\<forall>k<n. \<forall>a b. \<not> score_scale_at (drop k s) a b)
      \<longrightarrow> clean_rating (Some s) = Inr (Some (decimal_value ip fp))) \<and>
   ((\<forall>k\<le>length u. \<forall>a b. \<not> score_scale_at (drop k u) a b) \<longrightarrow> clean_rating (Some u) = Inr None) \<and>
   clean_rating (Some (star_sign @ '' 4.5 / 5'')) = Inr (Some 4.5)"
proof -
  have a: "clean_rating None = Inr None" "clean_rating (Some []) = Inr None"
    "clean_rating (Some ''Not Rated'') = Inr None"
    by (simp_all add: clean_rating_def)
  have b: "clean_rating (Some w) = Inr None" if "\<exists>pre post. w = pre @ ''Invalid Rating'' @ post"
  proof -
    have "contains ''Invalid Rating'' w" using that contains_iff by blast
    then show ?thesis by (simp add: clean_rating_def)
  qed
  have c: "clean_rating (Some s) = Inr (Some (decimal_value ip fp))"
    if h: "s \<noteq> []" "s \<noteq> ''Not Rated''" "\<not> (\<exists>pre post. s = pre @ ''Invalid Rating'' @ post)"
      "n \<le> length s" "score_scale_at (drop n s) ip fp"
      "\<forall>k<n. \<forall>a b. \<not> score_scale_at (drop k s) a b"
  proof -
    obtain g where g: "rating_match_at (drop n s) = Some g"
      "float_of_token g = Inr (decimal_value ip fp)"
      using rating_match_at_complete [OF h(5)] by blast
    have "\<forall>k < length (take n s). rating_match_at (drop k (take n s @ drop n s)) = None"
    proof (intro allI impI)
      fix k assume "k < length (take n s)"
      then have "k < n" by simp
      then have "\<forall>a b. \<not> score_scale_at (drop k s) a b" using h(6) by blast
      then have "rating_match_at (drop k s) = None"
        using rating_match_at_sound [of "drop k s"] by (cases "rating_match_at (drop k s)") auto
      then show "rating_match_at (drop k (take n s @ drop n s)) = None" by simp
    qed
    then have "re_search rating_match_at (take n s @ drop n s) = Some g"
      using re_search_first [of rating_match_at "drop n s" g "take n s"] g(1) by blast
    then have "re_search rating_match_at s = Some g" by simp
    moreover have "\<not> contains ''Invalid Rating'' s" using h(3) contains_iff by blast
    ultimately show ?thesis using h(1,2) g(2) by (simp add: clean_rating_def)
  qed
  have d: "clean_rating (Some u) = Inr None"
    if h: "\<forall>k\<le>length u. \<forall>a b. \<not> score_scale_at (drop k u) a b"
  proof -
    have "\<forall>k \<le> length u. rating_match_at (drop k u) = None"
    proof (intro allI impI)
      fix k assume "k \<le> length u"
      then have "\<forall>a b. \<not> score_scale_at (drop k u) a b" using h by blast
      then show "rating_match_at (drop k u) = None"
        using rating_match_at_sound [of "drop k u"] by (cases "rating_match_at (drop k u)") auto
    qed
    then have "re_search rating_match_at u = None" by (simp add: re_search_none)
    then show ?thesis by (simp add: clean_rating_def)
  qed
  have e: "clean_rating (Some (star_sign @ '' 4.5 / 5'')) = Inr (Some 4.5)"
    by (simp add: clean_rating_def star_sign_def starts_with_def rating_match_at_def is_digit_def
        is_space_def float_of_token_def decimal_value_def nat_of_digits_def digit_val_def)
  show ?thesis using a b c d e by blast
qed

theorem clean_rating_spec_witness:
  "clean_rating (Some (star_sign @ '' Invalid Rating / 5'')) = Inr None \<and>
   clean_rating (Some ''x 4.5 / 5'') = Inr (Some (decimal_value ''4'' ''5'')) \<and>
   decimal_value ''4'' ''5'' = 4.5 \<and>
   clean_rating (Some ''five stars'') = Inr None"
proof -
  note h = clean_rating_spec [of "star_sign @ '' Invalid Rating / 5''" "''x 4.5 / 5''" 2
      "''4''" "''5''" "''five stars''"]
  have 1: "\<exists>pre post. star_sign @ '' Invalid Rating / 5'' = pre @ ''Invalid Rating'' @ post"
  proof -
    have "star_sign @ '' Invalid Rating / 5'' = (star_sign @ '' '') @ ''Invalid Rating'' @ '' / 5''"
      by simp
    then show ?thesis by blast
  qed
  have 2: "\<not> (\<exists>pre post. ''x 4.5 / 5'' = pre @ ''Invalid Rating'' @ post)"
    using contains_iff [of "''Invalid Rating''" "''x 4.5 / 5''"] by (simp add: starts_with_def)
  have 3: "score_scale_at (drop 2 ''x 4.5 / 5'') ''4'' ''5''"
    unfolding score_scale_at_def
    by (intro exI [where x = "''.''"] exI [where x = "'' ''"] exI [where x = "CHR ''5''"]
        exI [where x = "[]"]) (simp add: is_digit_def is_space_def)
  have 4: "\<forall>k<2. \<forall>a b. \<not> score_scale_at (drop k ''x 4.5 / 5'') a b"
  proof (intro allI impI)
    fix k :: nat and a b assume "k < 2"
    then have "k = 0 \<or> k = 1" by auto
    then have "rating_match_at (drop k ''x 4.5 / 5'') = None"
      by (auto simp: rating_match_at_def is_digit_def)
    then show "\<not> score_scale_at (drop k ''x 4.5 / 5'') a b" by (rule no_match_no_score)
  qed
  have 5: "\<forall>k\<le>length ''five stars''. \<forall>a b. \<not> score_scale_at (drop k ''five stars'') a b"
  proof (intro allI impI notI)
    fix k a b assume "score_scale_at (drop k ''five stars'') a b"
    then have "CHR ''/'' \<in> set (drop k ''five stars'')" by (rule score_scale_at_slash)
    then have "CHR ''/'' \<in> set ''five stars''" by (rule in_set_dropD)
    then show False by simp
  qed
  have "clean_rating (Some (star_sign @ '' Invalid Rating / 5'')) = Inr None" using h 1 by blast
  moreover have "clean_rating (Some ''x 4.5 / 5'') = Inr (Some (decimal_value ''4'' ''5''))"
    using h 2 3 4 by simp
  moreover have "decimal_value ''4'' ''5'' = 4.5"
    by (simp add: decimal_value_def nat_of_digits_def digit_val_def)
  moreover have "clean_rating (Some ''five stars'') = Inr None" using h 5 by blast
  ultimately show ?thesis by simp
qed

text \<open>
  The claim as written asks for absent on every text that contains \<open>"Invalid"\<close>. The
  normalizer looks for \<open>"Invalid Rating"\<close>: a text with \<open>"Invalid"\<close> alone and a
  score pattern gives the score.
\<close>

theorem clean_rating_invalid_counterexample:
  "''Invalid 4.5 / 5'' = [] @ ''Invalid'' @ '' 4.5 / 5'' \<and> contains ''Invalid'' ''Invalid 4.5 / 5'' \<and>
   clean_rating (Some ''Invalid 4.5 / 5'') = Inr (Some 4.5)"
  by (simp add: clean_rating_def starts_with_def rating_match_at_def is_digit_def
      is_space_def float_of_token_def decimal_value_def nat_of_digits_def digit_val_def)

section \<open>The colors normalizer\<close>

text \<open>
  Claim C8. The colors normalizer returns absent on absent or empty input; on any other
  text it returns what \<open>int\<close> parses, and absent when \<open>int\<close> raises. A text of
  digits parses to the number it writes, a text with a character that no integer literal
  has (a letter, say) does not parse. In particular \<open>"3"\<close> gives 3, \<open>"0"\<close> gives the
  integer 0, which is not absent, and \<open>""\<close> and \<open>"abc"\<close> give absent.
  The definition checked is \<open>clean_colors\<close>.
\<close>

theorem clean_colors_spec:
  "clean_colors None = None \<and> clean_colors (Some []) = None \<and>
   (s \<noteq> [] \<longrightarrow> clean_colors (Some s) = (case py_int s of Inr n \<Rightarrow> Some n | Inl e \<Rightarrow> None)) \<and>
   (ds \<noteq> [] \<and> (\<forall>c\<in>set ds. is_digit c) \<longrightarrow> clean_colors (Some ds) = Some (int (nat_of_digits ds))) \<and>
   (c \<in> set w \<and> \<not> is_digit c \<and> \<not> is_space c \<and> c \<noteq> CHR ''+'' \<and> c \<noteq> CHR ''-'' \<and> c \<noteq> CHR ''_''
      \<longrightarrow> clean_colors (Some w) = None) \<and>
   clean_colors (Some ''3'') = Some 3 \<and> clean_colors (Some ''0'') = Some 0 \<and>
   clean_colors (Some ''0'') \<noteq> None \<and> clean_colors (Some ''abc'') = None"
proof -
  have a: "clean_colors None = None" "clean_colors (Some []) = None"
    by (simp_all add: clean_colors_def)
  have b: "s \<noteq> [] \<longrightarrow> clean_colors (Some s) = (case py_int s of Inr n \<Rightarrow> Some n | Inl e \<Rightarrow> None)"
    by (auto simp: clean_colors_def split: sum.splits exn.splits)
  have c: "ds \<noteq> [] \<and> (\<forall>c\<in>set ds. is_digit c) \<longrightarrow> clean_colors (Some ds) = Some (int (nat_of_digits ds))"
    using py_int_digits by (auto simp: clean_colors_def)
  have d: "c \<in> set w \<and> \<not> is_digit c \<and> \<not> is_space c \<and> c \<noteq> CHR ''+'' \<and> c \<noteq> CHR ''-'' \<and> c \<noteq> CHR ''_''
      \<longrightarrow> clean_colors (Some w) = None"
    using py_int_foreign [of c w] by (auto simp: clean_colors_def)
  have e: "clean_colors (Some ''3'') = Some 3" "clean_colors (Some ''0'') = Some 0"
    "clean_colors (Some ''abc'') = None"
    by (simp_all add: clean_colors_def py_int_def strip_def is_space_def is_digit_def
        nat_of_digits_def digit_val_def)
  show ?thesis using a b c d e by simp
qed

theorem clean_colors_spec_witness:
  "clean_colors (Some ''42'') = Some 42 \<and> clean_colors (Some ''3 Colors'') = None"
proof -
  have d: "\<forall>c\<in>set ''42''. is_digit c" by (simp add: is_digit_def)
  have f: "CHR ''C'' \<in> set ''3 Colors'' \<and> \<not> is_digit CHR ''C'' \<and> \<not> is_space CHR ''C''"
    by (simp add: is_digit_def is_space_def)
  have n: "int (nat_of_digits ''42'') = 42" by (simp add: nat_of_digits_def digit_val_def)
  note h = clean_colors_spec [of "''42''" "''42''" "CHR ''C''" "''3 Colors''"]
  have "clean_colors (Some ''42'') = Some (int (nat_of_digits ''42''))" using h d by blast
  moreover have "clean_colors (Some ''3 Colors'') = None" using h f by blast
  ultimately show ?thesis using n by simp
qed

section \<open>The card parser\<close>



text \<open>
  Claim C6, as amended. A detail paragraph whose trimmed text does not start with
  \<open>"Rating:"\<close>, \<open>"Size:"\<close> or \<open>"Gender:"\<close> and does not contain \<open>"Colors"\<close> leaves the
  record as it is: the parser gives the same record as for the card without that
  paragraph.
  The definition checked is \<open>scan_paragraph\<close>, the body of the scan in \<open>parse_product_data\<close>.
\<close>

theorem unmatched_line_ignored:
  "\<not> starts_with ''Rating:'' (strip l) \<and> \<not> contains ''Colors'' (strip l) \<and>
   \<not> starts_with ''Size:'' (strip l) \<and> \<not> starts_with ''Gender:'' (strip l)
   \<longrightarrow> parse_card stamp (c\<lparr>detail_paragraphs := pre @ l # post\<rparr>)
       = parse_card stamp (c\<lparr>detail_paragraphs := pre @ post\<rparr>)"
proof
  assume h: "\<not> starts_with ''Rating:'' (strip l) \<and> \<not> contains ''Colors'' (strip l) \<and>
   \<not> starts_with ''Size:'' (strip l) \<and> \<not> starts_with ''Gender:'' (strip l)"
  then have "scan_paragraph l m = m" for m by (simp add: scan_paragraph_ignored)
  then have "fold scan_paragraph (pre @ l # post) m = fold scan_paragraph (pre @ post) m" for m
    by simp
  then show "parse_card stamp (c\<lparr>detail_paragraphs := pre @ l # post\<rparr>)
       = parse_card stamp (c\<lparr>detail_paragraphs := pre @ post\<rparr>)"
    by (simp add: parse_card_def Let_def)
qed

theorem unmatched_line_ignored_witness:
  "parse_card ''t'' \<lparr>title_element = Some ''Shirt'', price_element = Some ''$5'',
       detail_paragraphs = [''3 Colors'', ''  In stock '', ''Size: M'']\<rparr>
   = parse_card ''t'' \<lparr>title_element = Some ''Shirt'', price_element = Some ''$5'',
       detail_paragraphs = [''3 Colors'', ''Size: M'']\<rparr>"
proof -
  have s: "strip ''  In stock '' = ''In stock''" by (simp add: strip_def is_space_def)
  have "\<not> starts_with ''Rating:'' (strip ''  In stock '') \<and>
        \<not> contains ''Colors'' (strip ''  In stock '') \<and>
        \<not> starts_with ''Size:'' (strip ''  In stock '') \<and>
        \<not> starts_with ''Gender:'' (strip ''  In stock '')"
    unfolding s by (simp add: starts_with_def)
  then show ?thesis
    using unmatched_line_ignored [where l = "''  In stock ''" and stamp = "''t''"
        and c = "\<lparr>title_element = Some ''Shirt'', price_element = Some ''$5'', detail_paragraphs = []\<rparr>"
        and pre = "[''3 Colors'']" and post = "[''Size: M'']"]
    by simp
qed

text \<open>
  The claim as written takes the four patterns to be the prefixes \<open>"Rating: "\<close>,
  \<open>"Size: "\<close>, \<open>"Gender: "\<close> and a number before \<open>"Colors"\<close>. The parser tests less: the
  line \<open>"Colors"\<close> has no number, and it sets the colors back to \<open>"0"\<close>; the line
  \<open>"Rating:4"\<close> has no space after the colon, and it becomes the rating.
\<close>

theorem descriptor_line_counterexample:
  "\<not> starts_with ''Rating: '' ''Colors'' \<and> re_search colors_match_at ''Colors'' = None \<and>
   \<not> starts_with ''Size: '' ''Colors'' \<and> \<not> starts_with ''Gender: '' ''Colors'' \<and>
   parse_card ''t'' \<lparr>title_element = None, price_element = None,
       detail_paragraphs = [''3 Colors'', ''Colors'']\<rparr> ''colors'' = Some ''0'' \<and>
   parse_card ''t'' \<lparr>title_element = None, price_element = None,
       detail_paragraphs = [''3 Colors'']\<rparr> ''colors'' = Some ''3'' \<and>
   \<not> starts_with ''Rating: '' ''Rating:4'' \<and> re_search colors_match_at ''Rating:4'' = None \<and>
   \<not> starts_with ''Size: '' ''Rating:4'' \<and> \<not> starts_with ''Gender: '' ''Rating:4'' \<and>
   parse_card ''t'' \<lparr>title_element = None, price_element = None,
       detail_paragraphs = [''Rating:4'']\<rparr> ''rating'' = Some ''Rating:4'' \<and>
   parse_card ''t'' \<lparr>title_element = None, price_element = None,
       detail_paragraphs = []\<rparr> ''rating'' = Some ''Not Rated''"
  by (simp add: parse_card_def scan_paragraph_def strip_def is_space_def starts_with_def
      is_digit_def colors_match_at_def)

section \<open>The pagination driver\<close>




section \<open>The sink in append mode\<close>



section \<open>The validator\<close>




text \<open>
  Claim C9. The validator returns a frame on every input, and every row of that frame has
  a value in each of title, price, rating, colors, size and gender, with a price above 0.
  A raw record that holds the sentinels in every field but the title gives no row: alone
  it gives the empty frame, and inside a sequence the output is that of the sequence
  without it.
  The definition checked is \<open>transform_fashion_data\<close>.
\<close>

theorem validated_rows:
  "(\<exists>out. transform_fashion_data raw_data = Inr out \<and>
      (\<forall>(i, r)\<in>set out.
         title r \<noteq> None \<and> price r \<noteq> None \<and> rating r \<noteq> None \<and> colors r \<noteq> None \<and>
         size_col r \<noteq> None \<and> gender r \<noteq> None \<and> (\<exists>p. price r = Some p \<and> 0 < p))) \<and>
   (raw_price s = ''Price Unavailable'' \<and> raw_rating s = ''Not Rated'' \<and> raw_colors s = ''0'' \<and>
    raw_size s = ''Unknown'' \<and> raw_gender s = ''Unknown''
      \<longrightarrow> transform_fashion_data [s] = Inr [] \<and>
          transform_fashion_data (xs @ s # ys) = transform_fashion_data (xs @ ys))"
proof (intro conjI impI)
  define out where "out = zip [0..<length (spec_validator raw_data)] (spec_validator raw_data)"
  have "title r \<noteq> None \<and> price r \<noteq> None \<and> rating r \<noteq> None \<and> colors r \<noteq> None \<and>
         size_col r \<noteq> None \<and> gender r \<noteq> None \<and> (\<exists>p. price r = Some p \<and> 0 < p)"
    if "(i, r) \<in> set out" for i r
  proof -
    have "r \<in> set (spec_validator raw_data)" using that unfolding out_def by (rule set_zip_rightD)
    then have "no_absent r \<and> price_positive r" by (rule spec_validator_rows)
    then show ?thesis by (auto simp: no_absent_def price_positive_def split: option.splits)
  qed
  then show "\<exists>out. transform_fashion_data raw_data = Inr out \<and>
      (\<forall>(i, r)\<in>set out.
         title r \<noteq> None \<and> price r \<noteq> None \<and> rating r \<noteq> None \<and> colors r \<noteq> None \<and>
         size_col r \<noteq> None \<and> gender r \<noteq> None \<and> (\<exists>p. price r = Some p \<and> 0 < p))"
    using transform_pipeline [of raw_data] unfolding out_def [symmetric] by blast
next
  assume h: "raw_price s = ''Price Unavailable'' \<and> raw_rating s = ''Not Rated'' \<and>
    raw_colors s = ''0'' \<and> raw_size s = ''Unknown'' \<and> raw_gender s = ''Unknown''"
  then have "rating (normalize_record s) = None"
    by (simp add: normalize_record_def clean_rating_def)
  then have drop: "\<not> no_absent (normalize_record s)" by (simp add: no_absent_def)
  then have "spec_validator [s] = []"
    by (simp add: spec_validator_def keep_first_def)
  then show "transform_fashion_data [s] = Inr []" by (simp add: transform_pipeline)
  have "spec_validator (xs @ s # ys) = spec_validator (xs @ ys)"
    using drop by (simp add: spec_validator_def)
  then show "transform_fashion_data (xs @ s # ys) = transform_fashion_data (xs @ ys)"
    by (simp add: transform_pipeline)
qed

theorem validated_rows_witness:
  "transform_fashion_data [example_raw] = Inr [(0, example_row)] \<and>
   no_absent example_row \<and> price example_row = Some 415840 \<and> (0::rat) < 415840 \<and>
   transform_fashion_data
     [example_raw, \<lparr>raw_title = ''Hoodie 2'', raw_price = ''Price Unavailable'',
        raw_rating = ''Not Rated'', raw_colors = ''0'', raw_size = ''Unknown'',
        raw_gender = ''Unknown'', raw_timestamp = ''2025-06-15 10:00:00''\<rparr>]
   = Inr [(0, example_row)]"
proof -
  define s where "s = \<lparr>raw_title = ''Hoodie 2'', raw_price = ''Price Unavailable'',
        raw_rating = ''Not Rated'', raw_colors = ''0'', raw_size = ''Unknown'',
        raw_gender = ''Unknown'', raw_timestamp = ''2025-06-15 10:00:00''\<rparr>"
  have hs: "raw_price s = ''Price Unavailable'' \<and> raw_rating s = ''Not Rated'' \<and>
    raw_colors s = ''0'' \<and> raw_size s = ''Unknown'' \<and> raw_gender s = ''Unknown''"
    by (simp add: s_def)
  have one: "transform_fashion_data [example_raw] = Inr [(0, example_row)]"
    using example_row_passes
    by (simp add: transform_pipeline spec_validator_def normalize_example
        drop_duplicates_first_keep_first [symmetric])
  note h = validated_rows [of "[example_raw]" s "[example_raw]" "[]"]
  have "\<forall>(i, r)\<in>set [(0::nat, example_row)]. title r \<noteq> None \<and> price r \<noteq> None \<and> rating r \<noteq> None \<and>
      colors r \<noteq> None \<and> size_col r \<noteq> None \<and> gender r \<noteq> None \<and> (\<exists>p. price r = Some p \<and> 0 < p)"
    using h one by auto
  then have "no_absent example_row" by (simp add: no_absent_def)
  moreover have "transform_fashion_data ([example_raw] @ s # []) = transform_fashion_data ([example_raw] @ [])"
    using h hs by blast
  moreover have "price example_row = Some 415840" by (simp add: example_row_def)
  ultimately show ?thesis using one unfolding s_def by simp
qed

end
